theory Spec2Isabelle
  imports
    Complex_Main
    "HOL-Library.Char_ord"
    "HOL-Library.List_Lexorder"
    "HOL-Library.Product_Lexorder"
    "HOL-Library.Sublist"
begin

section \<open>Data frames\<close>

text \<open>
  The transformers of \<^verbatim>\<open>solution/Pipeline1.py\<close> work on pandas data frames. A frame
  is modelled as its row count (the length of its index) and its ordered columns; a
  column carries its label, its dtype, its cells and, for a categorical column, its
  categories. A cell is missing (\<open>NaN\<close>), a number or a string. The labels of a
  table identify its columns: theorems about a frame \<open>X\<close> assume
  \<open>distinct (columns X)\<close>. (pandas itself allows a repeated label, and
  \<^verbatim>\<open>X[labels]\<close> then returns every column that carries it.)
\<close>

datatype dtype = Int64 | Float64 | Object | Category

datatype cell = NaN | Num real | Str string

record column =
  name :: string
  dtype :: dtype
  cells :: "cell list"
  categories :: "cell list"

record table =
  nrows :: nat
  cols :: "column list"

datatype error =
    KeyError "string list"
  | ValueError
  | IndexError
  | AttributeError
  | Exception

text \<open>\<^verbatim>\<open>X.columns\<close>: the labels, in column order.\<close>

definition columns :: "table \<Rightarrow> string list" where
  "columns X = map name (cols X)"

text \<open>
  The order numpy, pandas and scikit-learn sort cell values in: numbers ascending,
  strings ascending by character code, a missing value after everything else (the
  label encoder of scikit-learn 0.24 and later makes a missing value the last class;
  in the pipeline the encoder runs after the imputer, on columns without missing
  values). A number and a string have no order in Python; the columns of this
  pipeline never mix them, and the rank below puts numbers first.
\<close>

fun sort_rank :: "cell \<Rightarrow> nat \<times> real \<times> string" where
  "sort_rank (Num r) = (0, r, [])"
| "sort_rank (Str s) = (1, 0, s)"
| "sort_rank NaN = (2, 0, [])"

text \<open>\<^verbatim>\<open>np.unique\<close>: the distinct values, sorted.\<close>

definition unique :: "cell list \<Rightarrow> cell list" where
  "unique vs = sort_key sort_rank (remdups vs)"

fun index_of :: "'a \<Rightarrow> 'a list \<Rightarrow> nat" where
  "index_of v [] = 0"
| "index_of v (x # xs) = (if x = v then 0 else Suc (index_of v xs))"

text \<open>
  \<^verbatim>\<open>X.loc[:, col] = f(X.loc[:, col])\<close>: read the column labelled \<open>col\<close> (a
  \<open>KeyError\<close> when the frame has none), compute the new column, and store it under
  the same label. The assignment replaces the column, dtype and categories included
  (pandas before 2.0, which the pipeline relies on to make a text column categorical).
\<close>

definition loc_assign :: "string \<Rightarrow> (column \<Rightarrow> error + column) \<Rightarrow> table \<Rightarrow> error + table" where
  "loc_assign col f X =
     (case find (\<lambda>c. name c = col) (cols X) of
        None \<Rightarrow> Inl (KeyError [col])
      | Some c \<Rightarrow>
          (case f c of
             Inl e \<Rightarrow> Inl e
           | Inr v \<Rightarrow> Inr (X\<lparr>cols := map (\<lambda>c. if name c = col then v\<lparr>name := col\<rparr> else c) (cols X)\<rparr>)))"

text \<open>
  A sequence of statements, or a \<^verbatim>\<open>for col in ...\<close> loop, that assigns into the frame
  \<open>X\<close> in place. The result is the frame as the statements left it and the exception
  that stopped them, if one did.
\<close>

fun for_each :: "(string \<Rightarrow> table \<Rightarrow> error + table) \<Rightarrow> string list \<Rightarrow> table \<Rightarrow> table \<times> error option" where
  "for_each body [] X = (X, None)"
| "for_each body (col # rest) X =
     (case body col X of
        Inl e \<Rightarrow> (X, Some e)
      | Inr X' \<Rightarrow> for_each body rest X')"

section \<open>ColumnSelector\<close>

text \<open>
  \<^verbatim>\<open>X[self.columns]\<close> with a list of labels: a new frame with the columns of each
  requested label, in the requested order; pandas raises \<open>KeyError\<close> when a label is
  absent.
\<close>

definition getitem :: "table \<Rightarrow> string list \<Rightarrow> error + table" where
  "getitem X labels =
     (if \<forall>l \<in> set labels. l \<in> set (columns X)
      then Inr \<lparr>nrows = nrows X,
                cols = concat (map (\<lambda>l. filter (\<lambda>c. name c = l) (cols X)) labels)\<rparr>
      else Inl (KeyError (filter (\<lambda>l. l \<notin> set (columns X)) labels)))"

text \<open>
  \<^verbatim>\<open>list(set(self.columns) - set(X.columns))\<close>. Python fixes no order for the elements
  of a set; the model lists them in the order of the request.
\<close>

definition cols_error :: "string list \<Rightarrow> table \<Rightarrow> string list" where
  "cols_error requested X = remdups (filter (\<lambda>l. l \<notin> set (columns X)) requested)"

definition ColumnSelector_transform :: "string list \<Rightarrow> table \<Rightarrow> error + table" where
  "ColumnSelector_transform requested X =
     (case getitem X requested of
        Inr Y \<Rightarrow> Inr Y
      | Inl _ \<Rightarrow> Inl (KeyError (cols_error requested X)))"

section \<open>CustomTypeTransformer\<close>

text \<open>
  \<^verbatim>\<open>Series.astype('category')\<close>: a categorical column stays as it is; any other
  column becomes categorical, its categories the sorted distinct values present.
\<close>

definition astype_category :: "column \<Rightarrow> column" where
  "astype_category c =
     (if dtype c = Category then c
      else c\<lparr>dtype := Category, categories := unique (filter (\<lambda>v. v \<noteq> NaN) (cells c))\<rparr>)"

definition category_columns :: "string list" where
  "category_columns =
     [''workclass'', ''education'', ''marital-status'', ''occupation'',
      ''relationship'', ''race'', ''sex'', ''native-country'']"

text \<open>The eight assignments of \<^verbatim>\<open>transform\<close>, in source order; \<^verbatim>\<open>return X\<close>.\<close>

definition CustomTypeTransformer_transform :: "table \<Rightarrow> table \<times> error option" where
  "CustomTypeTransformer_transform X =
     for_each (\<lambda>col. loc_assign col (\<lambda>c. Inr (astype_category c))) category_columns X"

section \<open>TypeSelector\<close>

text \<open>
  \<^verbatim>\<open>X.select_dtypes(include=self.dtypes)\<close>: a new frame on the same index with the
  columns whose dtype is listed, in their order. pandas refuses an empty selection
  (its documentation: \<^verbatim>\<open>ValueError: If both of include and exclude are empty\<close>).
\<close>

definition select_dtypes :: "dtype list \<Rightarrow> table \<Rightarrow> error + table" where
  "select_dtypes include X =
     (if include = [] then Inl ValueError
      else Inr \<lparr>nrows = nrows X, cols = filter (\<lambda>c. dtype c \<in> set include) (cols X)\<rparr>)"

definition TypeSelector_transform :: "dtype list \<Rightarrow> table \<Rightarrow> error + table" where
  "TypeSelector_transform dtypes X = select_dtypes dtypes X"

section \<open>MissingCategoricalsTransformer\<close>

definition fillna :: "cell \<Rightarrow> cell list \<Rightarrow> cell list" where
  "fillna v xs = map (\<lambda>x. if x = NaN then v else x) xs"

text \<open>
  \<^verbatim>\<open>.cat.add_categories("Unknown").fillna('Unknown')\<close>: the \<open>.cat\<close> accessor exists on
  categorical columns only (\<open>AttributeError\<close> otherwise), and \<open>add_categories\<close>
  raises when the new category is already one of the old ones (its documentation:
  \<^verbatim>\<open>ValueError: If the new categories include old categories\<close>). The new category
  is appended, and every missing cell becomes \<open>Unknown\<close>.
\<close>

definition add_unknown_fillna :: "column \<Rightarrow> error + column" where
  "add_unknown_fillna c =
     (if dtype c \<noteq> Category then Inl AttributeError
      else if Str ''Unknown'' \<in> set (categories c) then Inl ValueError
      else Inr (c\<lparr>categories := categories c @ [Str ''Unknown''],
                  cells := fillna (Str ''Unknown'') (cells c)\<rparr>))"

text \<open>
  \<^verbatim>\<open>Series.value_counts()\<close>: the values with their counts, most frequent first;
  missing cells are not counted. For a categorical column every category has an
  entry, also one that no cell holds (count 0; the pandas guide: \<^verbatim>\<open>value_counts()\<close>
  \<^emph>\<open>will use all categories, even if some categories are not present in the data\<close>);
  for any other column the entries are the distinct present values. Entries of equal
  count keep their order (of the categories, or of first appearance).
\<close>

definition value_counts :: "column \<Rightarrow> (cell \<times> nat) list" where
  "value_counts c =
     (let keys = (if dtype c = Category then categories c
                  else remdups (filter (\<lambda>v. v \<noteq> NaN) (cells c)))
      in sort_key (\<lambda>(v, n). - int n) (map (\<lambda>v. (v, count_list (cells c) v)) keys))"

text \<open>
  \<^verbatim>\<open>.fillna(X.loc[:, col].value_counts().index[0])\<close>: \<open>index[0]\<close> raises
  \<open>IndexError\<close> when there are no counts.
\<close>

definition fillna_most_frequent :: "column \<Rightarrow> error + column" where
  "fillna_most_frequent c =
     (case value_counts c of
        [] \<Rightarrow> Inl IndexError
      | (v, _) # _ \<Rightarrow> Inr (c\<lparr>cells := fillna v (cells c)\<rparr>))"

definition MissingCategoricalsTransformer_transform :: "string \<Rightarrow> table \<Rightarrow> table \<times> error option" where
  "MissingCategoricalsTransformer_transform strategy X =
     for_each
       (\<lambda>col X.
          if strategy = ''none'' then loc_assign col add_unknown_fillna X
          else if strategy = ''most_frequent'' then loc_assign col fillna_most_frequent X
          else Inl Exception)
       (columns X) X"

section \<open>PipelineAwareLabelEncoder\<close>

text \<open>
  \<^verbatim>\<open>LabelEncoder().fit_transform(y)\<close>: the classes are the sorted distinct values of
  \<open>y\<close>, and each value is replaced by the position of its class. The encoder is
  created anew for every column of every call.
\<close>

definition LabelEncoder_fit_transform :: "cell list \<Rightarrow> nat list" where
  "LabelEncoder_fit_transform y = (let classes = unique y in map (\<lambda>v. index_of v classes) y)"

definition encode_column :: "column \<Rightarrow> column" where
  "encode_column c =
     c\<lparr>dtype := Int64,
       cells := map (\<lambda>k. Num (real k)) (LabelEncoder_fit_transform (cells c)),
       categories := []\<rparr>"

definition PipelineAwareLabelEncoder_transform :: "table \<Rightarrow> table \<times> error option" where
  "PipelineAwareLabelEncoder_transform X =
     for_each (\<lambda>col. loc_assign col (\<lambda>c. Inr (encode_column c))) (columns X) X"

section \<open>SparseToDataFrameTransformer\<close>

text \<open>
  A matrix, dense or sparse, is its row count and its columns. \<^verbatim>\<open>pd.DataFrame(X.toarray())\<close>
  labels the columns \<open>0, 1, ...\<close>, and the transformer turns each label into its decimal
  string.
\<close>

record matrix =
  m_rows :: nat
  m_cols :: "real list list"

fun str :: "nat \<Rightarrow> string" where
  "str n = (if n < 10 then [char_of (48 + n)] else str (n div 10) @ [char_of (48 + n mod 10)])"

declare str.simps [simp del]

definition SparseToDataFrameTransformer_transform :: "matrix \<Rightarrow> table" where
  "SparseToDataFrameTransformer_transform M =
     \<lparr>nrows = m_rows M,
      cols = map (\<lambda>(j, xs). \<lparr>name = str j, dtype = Float64, cells = map Num xs, categories = []\<rparr>)
                 (enumerate 0 (m_cols M))\<rparr>"

section \<open>The preprocessing pipeline\<close>

definition selected_columns :: "string list" where
  "selected_columns =
     [''age'', ''workclass'', ''education-num'', ''marital-status'', ''occupation'',
      ''relationship'', ''race'', ''sex'', ''capital-gain'', ''capital-loss'',
      ''hours-per-week'', ''native-country'']"

text \<open>
  \<open>StandardScaler\<close> and \<open>OneHotEncoder\<close> are scikit-learn's. Their \<open>transform\<close>, once
  fitted, reads a frame and returns a matrix or raises; the pipeline takes the two
  fitted transforms as the parameters \<open>scaler\<close> and \<open>onehot\<close>.

  The branch \<open>numeric_features\<close>: \<^verbatim>\<open>TypeSelector(dtypes=["int64"])\<close>, then the scaler.
\<close>

definition numeric_features_selected :: "table \<Rightarrow> error + table" where
  "numeric_features_selected X = TypeSelector_transform [Int64] X"

definition numeric_features_transform :: "(table \<Rightarrow> error + matrix) \<Rightarrow> table \<Rightarrow> error + matrix" where
  "numeric_features_transform scaler X =
     (case numeric_features_selected X of
        Inl e \<Rightarrow> Inl e
      | Inr T \<Rightarrow> scaler T)"

text \<open>
  The branch \<open>categorical_features\<close>: \<^verbatim>\<open>TypeSelector(dtypes=["category"])\<close> builds a new
  frame, which the imputer and the label encoder then assign into, before the one-hot
  encoder reads it.
\<close>

definition categorical_features_transform :: "(table \<Rightarrow> error + matrix) \<Rightarrow> table \<Rightarrow> error + matrix" where
  "categorical_features_transform onehot X =
     (case TypeSelector_transform [Category] X of
        Inl e \<Rightarrow> Inl e
      | Inr T \<Rightarrow>
          (case MissingCategoricalsTransformer_transform ''none'' T of
             (T1, Some e) \<Rightarrow> Inl e
           | (T1, None) \<Rightarrow>
               (case PipelineAwareLabelEncoder_transform T1 of
                  (T2, Some e) \<Rightarrow> Inl e
                | (T2, None) \<Rightarrow> onehot T2)))"

text \<open>
  \<open>FeatureUnion.transform\<close> runs every branch on the same frame and stacks the results
  side by side; stacking matrices of different row counts is a \<open>ValueError\<close>.
\<close>

definition hstack :: "matrix \<Rightarrow> matrix \<Rightarrow> error + matrix" where
  "hstack A B =
     (if m_rows A \<noteq> m_rows B then Inl ValueError
      else Inr \<lparr>m_rows = m_rows A, m_cols = m_cols A @ m_cols B\<rparr>)"

definition FeatureUnion_transform ::
  "(table \<Rightarrow> error + matrix) \<Rightarrow> (table \<Rightarrow> error + matrix) \<Rightarrow> table \<Rightarrow> error + matrix" where
  "FeatureUnion_transform scaler onehot X =
     (case numeric_features_transform scaler X of
        Inl e \<Rightarrow> Inl e
      | Inr A \<Rightarrow>
          (case categorical_features_transform onehot X of
             Inl e \<Rightarrow> Inl e
           | Inr B \<Rightarrow> hstack A B))"

text \<open>
  \<open>preprocess_pipeline.transform(X)\<close>: each step receives what the step before it
  returned. The first step assigns into the caller's frame and returns it, the second
  builds a new frame from it; \<open>coerce_and_select\<close> gives the caller's frame as the two
  steps leave it and the frame (or exception) they produce.
\<close>

definition coerce_and_select :: "table \<Rightarrow> table \<times> (error + table)" where
  "coerce_and_select X =
     (case CustomTypeTransformer_transform X of
        (X1, Some e) \<Rightarrow> (X1, Inl e)
      | (X1, None) \<Rightarrow> (X1, ColumnSelector_transform selected_columns X1))"

text \<open>
  The whole of \<open>transform\<close>: the caller's frame as the call leaves it, and the frame
  or exception the call produces.
\<close>

definition preprocess_transform ::
  "(table \<Rightarrow> error + matrix) \<Rightarrow> (table \<Rightarrow> error + matrix) \<Rightarrow> table \<Rightarrow> table \<times> (error + table)" where
  "preprocess_transform scaler onehot X =
     (case coerce_and_select X of
        (X1, Inl e) \<Rightarrow> (X1, Inl e)
      | (X1, Inr S) \<Rightarrow>
          (X1,
           case FeatureUnion_transform scaler onehot S of
             Inl e \<Rightarrow> Inl e
           | Inr M \<Rightarrow> Inr (SparseToDataFrameTransformer_transform M)))"

text \<open>The frame the numeric branch hands to the scaler when the pipeline transforms \<open>X\<close>.\<close>

definition numeric_features_input :: "table \<Rightarrow> error + table" where
  "numeric_features_input X =
     (case snd (coerce_and_select X) of
        Inl e \<Rightarrow> Inl e
      | Inr S \<Rightarrow> numeric_features_selected S)"

text \<open>The five columns of the Adult table that hold numbers.\<close>

definition numeric_columns :: "string list" where
  "numeric_columns =
     [''age'', ''education-num'', ''capital-gain'', ''capital-loss'', ''hours-per-week'']"

section \<open>Sample frames\<close>

text \<open>Two rows of the Adult table, as read from a file: text columns have dtype object.\<close>

definition adult_sample :: table where
  "adult_sample =
     \<lparr>nrows = 2,
      cols =
        [\<lparr>name = ''age'', dtype = Int64, cells = [Num 25, Num 38], categories = []\<rparr>,
         \<lparr>name = ''workclass'', dtype = Object, cells = [Str ''Private'', NaN], categories = []\<rparr>,
         \<lparr>name = ''education'', dtype = Object, cells = [Str ''HS-grad'', Str ''Bachelors''], categories = []\<rparr>,
         \<lparr>name = ''education-num'', dtype = Int64, cells = [Num 9, Num 13], categories = []\<rparr>,
         \<lparr>name = ''marital-status'', dtype = Object, cells = [Str ''Never-married'', Str ''Divorced''], categories = []\<rparr>,
         \<lparr>name = ''occupation'', dtype = Object, cells = [Str ''Sales'', Str ''Tech-support''], categories = []\<rparr>,
         \<lparr>name = ''relationship'', dtype = Object, cells = [Str ''Own-child'', Str ''Unmarried''], categories = []\<rparr>,
         \<lparr>name = ''race'', dtype = Object, cells = [Str ''White'', Str ''Black''], categories = []\<rparr>,
         \<lparr>name = ''sex'', dtype = Object, cells = [Str ''Male'', Str ''Female''], categories = []\<rparr>,
         \<lparr>name = ''capital-gain'', dtype = Int64, cells = [Num 0, Num 2174], categories = []\<rparr>,
         \<lparr>name = ''capital-loss'', dtype = Int64, cells = [Num 0, Num 0], categories = []\<rparr>,
         \<lparr>name = ''hours-per-week'', dtype = Int64, cells = [Num 40, Num 45], categories = []\<rparr>,
         \<lparr>name = ''native-country'', dtype = Object, cells = [Str ''Cuba'', Str ''India''], categories = []\<rparr>]\<rparr>"

text \<open>The same rows with a missing age: pandas stores such a column as float64.\<close>

definition adult_sample_float_age :: table where
  "adult_sample_float_age =
     adult_sample\<lparr>cols :=
       \<lparr>name = ''age'', dtype = Float64, cells = [Num 25, NaN], categories = []\<rparr>
         # tl (cols adult_sample)\<rparr>"

text \<open>
  Stand-ins for the two fitted scikit-learn transforms: one column of the matrix for
  each column of the frame, holding the numbers of its cells.
\<close>

definition sample_fitted :: "table \<Rightarrow> error + matrix" where
  "sample_fitted T =
     Inr \<lparr>m_rows = nrows T,
          m_cols = map (\<lambda>c. map (\<lambda>v. case v of Num r \<Rightarrow> r | _ \<Rightarrow> 0) (cells c)) (cols T)\<rparr>"

text \<open>A frame of two categorical columns, as the categorical branch selects them.\<close>

definition categorical_sample :: table where
  "categorical_sample =
     \<lparr>nrows = 3,
      cols =
        [\<lparr>name = ''workclass'', dtype = Category,
          cells = [Str ''Self-emp'', Str ''Private'', Str ''Self-emp''],
          categories = [Str ''Private'', Str ''Self-emp'']\<rparr>,
         \<lparr>name = ''sex'', dtype = Category,
          cells = [Str ''Male'', NaN, Str ''Female''],
          categories = [Str ''Female'', Str ''Male'']\<rparr>]\<rparr>"

text \<open>
  Two columns coerced from text: every value of the second is missing, so it has no
  categories.
\<close>

definition all_missing_sample :: table where
  "all_missing_sample =
     \<lparr>nrows = 2,
      cols =
        [\<lparr>name = ''workclass'', dtype = Category,
          cells = [Str ''Private'', NaN], categories = [Str ''Private'']\<rparr>,
         \<lparr>name = ''occupation'', dtype = Category,
          cells = [NaN, NaN], categories = []\<rparr>]\<rparr>"

section \<open>Assignments in a loop\<close>

text \<open>
  Whether the assignment to the column labelled \<open>n\<close> goes through: the frame has the
  column and \<open>f\<close> returns a new one for it.
\<close>

definition assigns :: "(column \<Rightarrow> error + column) \<Rightarrow> table \<Rightarrow> string \<Rightarrow> bool" where
  "assigns f X n =
     (case find (\<lambda>c. name c = n) (cols X) of
        None \<Rightarrow> False
      | Some c \<Rightarrow> isl (f c) = False)"

text \<open>
  The columns \<open>CustomTypeTransformer\<close> gets to coerce: its eight labels up to the first
  one the frame does not have.
\<close>

definition coerced :: "table \<Rightarrow> string list" where
  "coerced X = takeWhile (\<lambda>n. n \<in> set (columns X)) category_columns"

section \<open>Properties of the loop\<close>

lemma find_name_distinct:
  assumes "distinct (map name cs)" and "c \<in> set cs"
  shows "find (\<lambda>c'. name c' = name c) cs = Some c"
  using assms by (induction cs) auto

lemma find_name_other:
  assumes "m \<noteq> n"
  shows "find (\<lambda>c. name c = m) (map (\<lambda>c. if name c = n then v\<lparr>name := n\<rparr> else c) cs)
           = find (\<lambda>c. name c = m) cs"
  using assms by (induction cs) auto

lemma for_each_loc_assign:
  assumes "distinct (columns X)" and "distinct ns"
  shows "for_each (\<lambda>col. loc_assign col f) ns X =
           (X\<lparr>cols := map (\<lambda>c. if name c \<in> set (takeWhile (assigns f X) ns)
                                then (projr (f c))\<lparr>name := name c\<rparr> else c) (cols X)\<rparr>,
            case dropWhile (assigns f X) ns of
              [] \<Rightarrow> None
            | n # _ \<Rightarrow> Some (case find (\<lambda>c. name c = n) (cols X) of
                                None \<Rightarrow> KeyError [n]
                              | Some c \<Rightarrow> projl (f c)))"
  using assms
proof (induction ns arbitrary: X)
  case Nil
  then show ?case by simp
next
  case (Cons n rest)
  show ?case
  proof (cases "find (\<lambda>c. name c = n) (cols X)")
    case None
    then show ?thesis by (simp add: loc_assign_def assigns_def)
  next
    case (Some c)
    show ?thesis
    proof (cases "f c")
      case (Inl e)
      with Some show ?thesis by (simp add: loc_assign_def assigns_def)
    next
      case (Inr v)
      define X1 where "X1 = X\<lparr>cols := map (\<lambda>c. if name c = n then v\<lparr>name := n\<rparr> else c) (cols X)\<rparr>"
      have step: "loc_assign n f X = Inr X1"
        using Some Inr by (simp add: loc_assign_def X1_def)
      have ok: "assigns f X n"
        using Some Inr by (simp add: assigns_def)
      have names: "columns X1 = columns X"
        by (simp add: X1_def columns_def comp_def if_distrib [of name] cong: if_cong)
      have same: "find (\<lambda>c. name c = m) (cols X1) = find (\<lambda>c. name c = m) (cols X)"
        if "m \<in> set rest" for m
      proof -
        from that Cons.prems(2) have "m \<noteq> n" by auto
        then show ?thesis by (simp add: X1_def find_name_other)
      qed
      then have oks: "assigns f X1 m = assigns f X m" if "m \<in> set rest" for m
        using that by (simp add: assigns_def)
      have tw: "takeWhile (assigns f X1) rest = takeWhile (assigns f X) rest"
        by (rule takeWhile_cong) (simp_all add: oks)
      have dw: "dropWhile (assigns f X1) rest = dropWhile (assigns f X) rest"
        by (rule dropWhile_cong) (simp_all add: oks)
      have c_unique: "c' = c" if "c' \<in> set (cols X)" and "name c' = n" for c'
      proof -
        from Cons.prems(1) that(1) have "find (\<lambda>d. name d = name c') (cols X) = Some c'"
          by (simp add: columns_def find_name_distinct)
        with that(2) Some show ?thesis by simp
      qed
      have n_out: "n \<notin> set (takeWhile (assigns f X) rest)"
        using Cons.prems(2) set_takeWhileD by fastforce
      have cols_eq:
        "map (\<lambda>c. if name c \<in> set (takeWhile (assigns f X) rest)
                   then (projr (f c))\<lparr>name := name c\<rparr> else c) (cols X1)
         = map (\<lambda>c. if name c \<in> set (takeWhile (assigns f X) (n # rest))
                     then (projr (f c))\<lparr>name := name c\<rparr> else c) (cols X)"
        using n_out ok Inr c_unique by (auto simp: X1_def)
      have err_eq:
        "(case dropWhile (assigns f X) rest of [] \<Rightarrow> None
          | m # _ \<Rightarrow> Some (case find (\<lambda>c. name c = m) (cols X1) of
                              None \<Rightarrow> KeyError [m] | Some c \<Rightarrow> projl (f c)))
         = (case dropWhile (assigns f X) rest of [] \<Rightarrow> None
          | m # _ \<Rightarrow> Some (case find (\<lambda>c. name c = m) (cols X) of
                              None \<Rightarrow> KeyError [m] | Some c \<Rightarrow> projl (f c)))"
      proof (cases "dropWhile (assigns f X) rest")
        case Nil
        show ?thesis unfolding Nil by simp
      next
        case (Cons m ms)
        then have "m \<in> set rest"
          by (metis list.set_intros(1) set_dropWhileD)
        then show ?thesis unfolding Cons by (simp add: same)
      qed
      have "for_each (\<lambda>col. loc_assign col f) (n # rest) X = for_each (\<lambda>col. loc_assign col f) rest X1"
        using step by simp
      also have "\<dots> = (X1\<lparr>cols := map (\<lambda>c. if name c \<in> set (takeWhile (assigns f X1) rest)
                                then (projr (f c))\<lparr>name := name c\<rparr> else c) (cols X1)\<rparr>,
            case dropWhile (assigns f X1) rest of
              [] \<Rightarrow> None
            | n # _ \<Rightarrow> Some (case find (\<lambda>c. name c = n) (cols X1) of
                                None \<Rightarrow> KeyError [n]
                              | Some c \<Rightarrow> projl (f c)))"
        using Cons.prems names by (intro Cons.IH) simp_all
      also have "\<dots> = (X\<lparr>cols := map (\<lambda>c. if name c \<in> set (takeWhile (assigns f X) (n # rest))
                                then (projr (f c))\<lparr>name := name c\<rparr> else c) (cols X)\<rparr>,
            case dropWhile (assigns f X) (n # rest) of
              [] \<Rightarrow> None
            | n # _ \<Rightarrow> Some (case find (\<lambda>c. name c = n) (cols X) of
                                None \<Rightarrow> KeyError [n]
                              | Some c \<Rightarrow> projl (f c)))"
        unfolding tw dw err_eq cols_eq [symmetric] using ok by (simp add: X1_def)
      finally show ?thesis .
    qed
  qed
qed

lemma all_assigns:
  assumes "distinct (columns X)" and "\<forall>c \<in> set (cols X). f c = Inr (g c)"
  shows "\<forall>n \<in> set (columns X). assigns f X n"
proof
  fix n assume "n \<in> set (columns X)"
  then obtain c where c: "c \<in> set (cols X)" and n: "n = name c"
    by (auto simp: columns_def)
  with assms(1) have "find (\<lambda>d. name d = n) (cols X) = Some c"
    by (simp add: columns_def find_name_distinct)
  with assms(2) c show "assigns f X n"
    by (simp add: assigns_def)
qed

lemma for_each_all:
  assumes "distinct (columns X)" and "\<forall>c \<in> set (cols X). f c = Inr (g c)"
  shows "for_each (\<lambda>col. loc_assign col f) (columns X) X
           = (X\<lparr>cols := map (\<lambda>c. (g c)\<lparr>name := name c\<rparr>) (cols X)\<rparr>, None)"
proof -
  have all: "\<forall>n \<in> set (columns X). assigns f X n"
    using assms by (rule all_assigns)
  then have tw: "takeWhile (assigns f X) (columns X) = columns X"
    by (simp add: takeWhile_eq_all_conv)
  from all have dw: "dropWhile (assigns f X) (columns X) = []"
    by simp
  have "map (\<lambda>c. if name c \<in> set (columns X)
                 then (projr (f c))\<lparr>name := name c\<rparr> else c) (cols X)
          = map (\<lambda>c. (g c)\<lparr>name := name c\<rparr>) (cols X)"
    using assms(2) by (intro map_cong) (simp_all add: columns_def)
  then show ?thesis
    unfolding for_each_loc_assign [OF assms(1) assms(1), of f] tw dw by simp
qed

lemma for_each_error:
  assumes "distinct (columns X)" and "c \<in> set (cols X)" and "f c = Inl e"
    and "\<forall>d \<in> set (cols X). \<forall>e'. f d = Inl e' \<longrightarrow> e' = e"
  shows "snd (for_each (\<lambda>col. loc_assign col f) (columns X) X) = Some e"
proof -
  from assms(1,2) have "find (\<lambda>d. name d = name c) (cols X) = Some c"
    by (simp add: columns_def find_name_distinct)
  with assms(3) have "\<not> assigns f X (name c)"
    by (simp add: assigns_def)
  moreover from assms(2) have "name c \<in> set (columns X)"
    by (simp add: columns_def)
  ultimately have "dropWhile (assigns f X) (columns X) \<noteq> []"
    by auto
  then obtain n ns where dw: "dropWhile (assigns f X) (columns X) = n # ns"
    by (cases "dropWhile (assigns f X) (columns X)") auto
  then have bad: "\<not> assigns f X n"
    using hd_dropWhile [of "assigns f X" "columns X"] by simp
  from dw have "n \<in> set (columns X)"
    by (metis list.set_intros(1) set_dropWhileD)
  then obtain d where d: "d \<in> set (cols X)" and "name d = n"
    by (auto simp: columns_def)
  with assms(1) have found: "find (\<lambda>c. name c = n) (cols X) = Some d"
    using find_name_distinct [of "cols X" d] by (simp add: columns_def)
  with bad obtain e' where e': "f d = Inl e'"
    by (cases "f d") (simp_all add: assigns_def)
  with assms(4) d have "e' = e" by blast
  with e' found show ?thesis
    unfolding for_each_loc_assign [OF assms(1) assms(1), of f] dw by simp
qed

section \<open>Properties of the label encoding\<close>
















section \<open>Properties of the selectors\<close>

lemma filter_name_single:
  assumes "distinct (map name cs)" and "l \<in> set (map name cs)"
  shows "\<exists>c. filter (\<lambda>c. name c = l) cs = [c] \<and> c \<in> set cs \<and> name c = l"
  using assms
proof (induction cs)
  case Nil
  then show ?case by simp
next
  case (Cons a cs)
  show ?case
  proof (cases "name a = l")
    case True
    with Cons.prems have "l \<notin> set (map name cs)" by auto
    then have "filter (\<lambda>c. name c = l) cs = []" by (auto simp: filter_empty_conv)
    with True show ?thesis by simp
  next
    case False
    with Cons show ?thesis by auto
  qed
qed

lemma names_of_selection:
  assumes "set ls \<subseteq> set (columns X)" and "distinct (columns X)"
  shows "map name (concat (map (\<lambda>l. filter (\<lambda>c. name c = l) (cols X)) ls)) = ls"
  using assms(1)
proof (induction ls)
  case Nil
  then show ?case by simp
next
  case (Cons l ls)
  from Cons.prems have "l \<in> set (map name (cols X))"
    by (simp add: columns_def)
  with assms(2) obtain c where "filter (\<lambda>c. name c = l) (cols X) = [c]" and "name c = l"
    using filter_name_single [of "cols X" l] by (auto simp: columns_def)
  with Cons show ?case by simp
qed

section \<open>Properties of the imputer\<close>

lemma fillna_no_NaN: "v \<noteq> NaN \<Longrightarrow> NaN \<notin> set (fillna v xs)"
  by (auto simp: fillna_def)

lemma fillna_nth:
  "i < length xs \<Longrightarrow> fillna v xs ! i = (if xs ! i = NaN then v else xs ! i)"
  by (simp add: fillna_def)

lemma value_counts_keys:
  "fst ` set (value_counts c) =
     (if dtype c = Category then set (categories c) else set (cells c) - {NaN})"
  by (auto simp: value_counts_def Let_def image_image)

lemma value_counts_empty:
  "value_counts c = [] \<longleftrightarrow>
     (if dtype c = Category then categories c = [] else (\<forall>v \<in> set (cells c). v = NaN))"
proof -
  have "value_counts c = [] \<longleftrightarrow> fst ` set (value_counts c) = {}"
    by simp
  then show ?thesis
    unfolding value_counts_keys by auto
qed

lemma fillna_most_frequent_error:
  "fillna_most_frequent c = Inl e \<Longrightarrow> e = IndexError \<and> value_counts c = []"
  by (auto simp: fillna_most_frequent_def split: list.splits)

lemma fillna_most_frequent_ok:
  assumes "value_counts c \<noteq> []"
  shows "fillna_most_frequent c = Inr (c\<lparr>cells := fillna (fst (hd (value_counts c))) (cells c)\<rparr>)"
  using assms by (cases "value_counts c") (auto simp: fillna_most_frequent_def)

lemma most_frequent_not_NaN:
  assumes "value_counts c \<noteq> []" and "dtype c = Category \<longrightarrow> NaN \<notin> set (categories c)"
  shows "fst (hd (value_counts c)) \<noteq> NaN"
proof -
  from assms(1) have "fst (hd (value_counts c)) \<in> fst ` set (value_counts c)"
    by simp
  with assms(2) show ?thesis
    unfolding value_counts_keys by (auto split: if_splits)
qed

lemma MissingCategoricals_most_frequent_loop:
  "MissingCategoricalsTransformer_transform ''most_frequent'' X
     = for_each (\<lambda>col. loc_assign col fillna_most_frequent) (columns X) X"
  by (simp add: MissingCategoricalsTransformer_transform_def)

lemma MissingCategoricals_none_loop:
  "MissingCategoricalsTransformer_transform ''none'' X
     = for_each (\<lambda>col. loc_assign col add_unknown_fillna) (columns X) X"
  by (simp add: MissingCategoricalsTransformer_transform_def)

lemma MissingCategoricals_none_fills:
  assumes "distinct (columns X)"
    and "\<forall>c \<in> set (cols X). dtype c = Category \<and> Str ''Unknown'' \<notin> set (categories c)"
  shows "MissingCategoricalsTransformer_transform ''none'' X
           = (X\<lparr>cols := map (\<lambda>c. c\<lparr>categories := categories c @ [Str ''Unknown''],
                                    cells := fillna (Str ''Unknown'') (cells c)\<rparr>) (cols X)\<rparr>,
              None)"
proof -
  let ?g = "\<lambda>c. c\<lparr>categories := categories c @ [Str ''Unknown''],
                   cells := fillna (Str ''Unknown'') (cells c)\<rparr>"
  from assms(2) have "\<forall>c \<in> set (cols X). add_unknown_fillna c = Inr (?g c)"
    by (simp add: add_unknown_fillna_def)
  with assms(1) have "MissingCategoricalsTransformer_transform ''none'' X
      = (X\<lparr>cols := map (\<lambda>c. (?g c)\<lparr>name := name c\<rparr>) (cols X)\<rparr>, None)"
    unfolding MissingCategoricals_none_loop by (rule for_each_all)
  then show ?thesis by simp
qed

lemma MissingCategoricals_none_postcondition:
  assumes "distinct (columns X)"
    and "\<forall>c \<in> set (cols X). dtype c = Category \<and> Str ''Unknown'' \<notin> set (categories c)"
  shows "\<exists>Y. MissingCategoricalsTransformer_transform ''none'' X = (Y, None)
           \<and> nrows Y = nrows X \<and> columns Y = columns X
           \<and> (\<forall>c \<in> set (cols Y). NaN \<notin> set (cells c) \<and> Str ''Unknown'' \<in> set (categories c))
           \<and> (\<forall>j < length (cols X). \<forall>i < length (cells (cols X ! j)).
                 cells (cols Y ! j) ! i =
                   (if cells (cols X ! j) ! i = NaN then Str ''Unknown'' else cells (cols X ! j) ! i))"
proof -
  let ?g = "\<lambda>c. c\<lparr>categories := categories c @ [Str ''Unknown''],
                   cells := fillna (Str ''Unknown'') (cells c)\<rparr>"
  let ?Y = "X\<lparr>cols := map ?g (cols X)\<rparr>"
  have run: "MissingCategoricalsTransformer_transform ''none'' X = (?Y, None)"
    using assms by (rule MissingCategoricals_none_fills)
  have "columns ?Y = columns X"
    by (simp add: columns_def)
  moreover have "\<forall>c \<in> set (cols ?Y). NaN \<notin> set (cells c) \<and> Str ''Unknown'' \<in> set (categories c)"
    by (auto simp: fillna_no_NaN)
  moreover have "\<forall>j < length (cols X). \<forall>i < length (cells (cols X ! j)).
                 cells (cols ?Y ! j) ! i =
                   (if cells (cols X ! j) ! i = NaN then Str ''Unknown'' else cells (cols X ! j) ! i)"
    by (simp add: fillna_nth)
  ultimately show ?thesis
    using run by (intro exI [of _ ?Y]) simp
qed

lemma MissingCategoricals_unknown_strategy:
  assumes "strategy \<noteq> ''none''" and "strategy \<noteq> ''most_frequent''" and "cols X \<noteq> []"
  shows "MissingCategoricalsTransformer_transform strategy X = (X, Some Exception)"
  using assms
  by (cases "cols X") (simp_all add: MissingCategoricalsTransformer_transform_def columns_def)

section \<open>Properties of the coercion\<close>

lemma astype_category_name: "name (astype_category c) = name c"
  by (simp add: astype_category_def)

lemma astype_category_cells: "cells (astype_category c) = cells c"
  by (simp add: astype_category_def)

lemma astype_category_dtype: "dtype (astype_category c) = Category"
  by (simp add: astype_category_def)

lemma astype_category_idem: "astype_category (astype_category c) = astype_category c"
  by (simp add: astype_category_def)

lemma assigns_total: "assigns (\<lambda>c. Inr (g c)) X = (\<lambda>n. n \<in> set (columns X))"
proof
  fix n
  show "assigns (\<lambda>c. Inr (g c)) X n \<longleftrightarrow> n \<in> set (columns X)"
  proof (cases "find (\<lambda>c. name c = n) (cols X)")
    case None
    then have "n \<notin> set (columns X)"
      by (auto simp: find_None_iff columns_def)
    then show ?thesis
      unfolding assigns_def None by simp
  next
    case (Some c)
    then have "c \<in> set (cols X) \<and> name c = n"
      by (auto simp: find_Some_iff in_set_conv_nth)
    with Some show ?thesis
      by (auto simp: assigns_def columns_def)
  qed
qed

lemma distinct_category_columns: "distinct category_columns"
  by (simp add: category_columns_def)

lemma CustomTypeTransformer_result:
  assumes "distinct (columns X)"
  shows "CustomTypeTransformer_transform X =
           (X\<lparr>cols := map (\<lambda>c. if name c \<in> set (coerced X) then astype_category c else c) (cols X)\<rparr>,
            case dropWhile (\<lambda>n. n \<in> set (columns X)) category_columns of
              [] \<Rightarrow> None
            | n # _ \<Rightarrow> Some (KeyError [n]))"
proof -
  let ?f = "\<lambda>c. Inr (astype_category c) :: error + column"
  let ?p = "\<lambda>n. n \<in> set (columns X)"
  have cols_eq: "map (\<lambda>c. if name c \<in> set (takeWhile ?p category_columns)
                 then (projr (?f c))\<lparr>name := name c\<rparr> else c) (cols X)
      = map (\<lambda>c. if name c \<in> set (coerced X) then astype_category c else c) (cols X)"
    by (simp add: coerced_def astype_category_def)
  have err_eq: "(case dropWhile ?p category_columns of [] \<Rightarrow> None
          | n # _ \<Rightarrow> Some (case find (\<lambda>c. name c = n) (cols X) of
                              None \<Rightarrow> KeyError [n] | Some c \<Rightarrow> projl (?f c)))
      = (case dropWhile ?p category_columns of [] \<Rightarrow> None | n # _ \<Rightarrow> Some (KeyError [n]))"
  proof (cases "dropWhile ?p category_columns")
    case Nil
    show ?thesis unfolding Nil by simp
  next
    case (Cons n ns)
    then have "n \<notin> set (columns X)"
      using hd_dropWhile [of ?p category_columns] by simp
    then have "find (\<lambda>c. name c = n) (cols X) = None"
      by (auto simp: find_None_iff columns_def)
    then show ?thesis unfolding Cons by simp
  qed
  show ?thesis
    unfolding CustomTypeTransformer_transform_def
      for_each_loc_assign [OF assms distinct_category_columns, of ?f]
      assigns_total cols_eq err_eq ..
qed

lemma CustomTypeTransformer_columns:
  assumes "distinct (columns X)"
  shows "columns (fst (CustomTypeTransformer_transform X)) = columns X"
  unfolding CustomTypeTransformer_result [OF assms]
  by (simp add: columns_def astype_category_name)

lemma CustomTypeTransformer_idem:
  assumes "distinct (columns X)"
  shows "CustomTypeTransformer_transform (fst (CustomTypeTransformer_transform X))
           = CustomTypeTransformer_transform X"
proof -
  let ?X1 = "fst (CustomTypeTransformer_transform X)"
  let ?h = "\<lambda>c. if name c \<in> set (coerced X) then astype_category c else c"
  have names: "columns ?X1 = columns X"
    using assms by (rule CustomTypeTransformer_columns)
  then have d1: "distinct (columns ?X1)" and co: "coerced ?X1 = coerced X"
    using assms by (simp_all add: coerced_def)
  have X1: "?X1 = X\<lparr>cols := map ?h (cols X)\<rparr>"
    unfolding CustomTypeTransformer_result [OF assms] by simp
  have "map ?h (cols ?X1) = map ?h (cols X)"
    unfolding X1 by (simp add: astype_category_name astype_category_idem)
  then have "?X1\<lparr>cols := map ?h (cols ?X1)\<rparr> = ?X1"
    unfolding X1 by simp
  then show ?thesis
    unfolding CustomTypeTransformer_result [OF d1] co names
    unfolding CustomTypeTransformer_result [OF assms] by simp
qed

lemma coerce_and_select_idem:
  assumes "distinct (columns X)"
  shows "coerce_and_select (fst (coerce_and_select X)) = coerce_and_select X"
proof -
  have fst_eq: "fst (coerce_and_select Z) = fst (CustomTypeTransformer_transform Z)" for Z
    by (simp add: coerce_and_select_def split: prod.split option.split)
  show ?thesis
    unfolding fst_eq
    unfolding coerce_and_select_def CustomTypeTransformer_idem [OF assms] ..
qed

lemma fst_preprocess_transform:
  "fst (preprocess_transform scaler onehot X) = fst (coerce_and_select X)"
  by (simp add: preprocess_transform_def split: prod.split sum.split)

lemma fst_coerce_and_select:
  "fst (coerce_and_select X) = fst (CustomTypeTransformer_transform X)"
  by (simp add: coerce_and_select_def split: prod.split option.split)

section \<open>What the in-place transforms keep\<close>

lemma loc_assign_frame:
  assumes "loc_assign col f X = Inr X'"
  shows "nrows X' = nrows X \<and> columns X' = columns X"
proof -
  have "map name (map (\<lambda>c. if name c = col then v\<lparr>name := col\<rparr> else c) cs) = map name cs" for v cs
    by (induction cs) auto
  with assms show ?thesis
    by (auto simp: loc_assign_def columns_def split: option.splits sum.splits)
qed

lemma for_each_frame:
  assumes "\<And>col Z Z'. body col Z = Inr Z' \<Longrightarrow> nrows Z' = nrows Z \<and> columns Z' = columns Z"
  shows "nrows (fst (for_each body ns X)) = nrows X \<and> columns (fst (for_each body ns X)) = columns X"
proof (induction ns arbitrary: X)
  case Nil
  show ?case by simp
next
  case (Cons n ns)
  show ?case
  proof (cases "body n X")
    case (Inl e)
    then show ?thesis by simp
  next
    case (Inr X')
    with assms [OF Inr] Cons.IH [of X'] show ?thesis by simp
  qed
qed

lemma CustomTypeTransformer_frame:
  "nrows (fst (CustomTypeTransformer_transform X)) = nrows X
   \<and> columns (fst (CustomTypeTransformer_transform X)) = columns X"
  unfolding CustomTypeTransformer_transform_def
  by (rule for_each_frame) (rule loc_assign_frame)

lemma MissingCategoricals_frame:
  "nrows (fst (MissingCategoricalsTransformer_transform strategy X)) = nrows X
   \<and> columns (fst (MissingCategoricalsTransformer_transform strategy X)) = columns X"
  unfolding MissingCategoricalsTransformer_transform_def
  by (rule for_each_frame) (auto split: if_splits dest: loc_assign_frame)

lemma PipelineAwareLabelEncoder_frame:
  "nrows (fst (PipelineAwareLabelEncoder_transform X)) = nrows X
   \<and> columns (fst (PipelineAwareLabelEncoder_transform X)) = columns X"
  unfolding PipelineAwareLabelEncoder_transform_def
  by (rule for_each_frame) (rule loc_assign_frame)

section \<open>Properties of the numeric branch\<close>

lemma filter_int64_coerced:
  "filter (\<lambda>c. dtype c \<in> set [Int64])
     (filter (\<lambda>c. name c = l)
        (map (\<lambda>c. if name c \<in> set category_columns then astype_category c else c) cs))
   = (if l \<in> set category_columns then []
      else filter (\<lambda>c. dtype c = Int64) (filter (\<lambda>c. name c = l) cs))"
  by (induction cs) (auto simp: astype_category_name astype_category_dtype)

lemma filter_int64_selection:
  "filter (\<lambda>c. dtype c \<in> set [Int64])
     (concat (map (\<lambda>l. filter (\<lambda>c. name c = l)
        (map (\<lambda>c. if name c \<in> set category_columns then astype_category c else c) cs)) ls))
   = filter (\<lambda>c. dtype c = Int64)
       (concat (map (\<lambda>l. filter (\<lambda>c. name c = l) cs)
          (filter (\<lambda>l. l \<notin> set category_columns) ls)))"
proof (induction ls)
  case Nil
  show ?case by simp
next
  case (Cons l ls)
  show ?case
    using Cons.IH filter_int64_coerced [of l cs] by (simp del: set_simps)
qed

lemma numeric_of_selected:
  "filter (\<lambda>l. l \<notin> set category_columns) selected_columns = numeric_columns"
  by (simp add: selected_columns_def category_columns_def numeric_columns_def)

lemma numeric_features_input_result:
  assumes "distinct (columns X)"
    and "set category_columns \<subseteq> set (columns X)"
    and "set selected_columns \<subseteq> set (columns X)"
  shows "numeric_features_input X =
           Inr \<lparr>nrows = nrows X,
                cols = filter (\<lambda>c. dtype c = Int64)
                         (concat (map (\<lambda>l. filter (\<lambda>c. name c = l) (cols X)) numeric_columns))\<rparr>"
proof -
  let ?h = "\<lambda>c. if name c \<in> set category_columns then astype_category c else c"
  let ?X1 = "X\<lparr>cols := map ?h (cols X)\<rparr>"
  from assms(2) have tw: "coerced X = category_columns"
    by (auto simp: coerced_def takeWhile_eq_all_conv)
  from assms(2) have dw: "dropWhile (\<lambda>n. n \<in> set (columns X)) category_columns = []"
    by auto
  have ctt: "CustomTypeTransformer_transform X = (?X1, None)"
    unfolding CustomTypeTransformer_result [OF assms(1)] tw dw by simp
  have names: "columns ?X1 = columns X"
    by (simp add: columns_def astype_category_name comp_def if_distrib [of name] cong: if_cong)
  let ?S = "\<lparr>nrows = nrows X,
             cols = concat (map (\<lambda>l. filter (\<lambda>c. name c = l) (map ?h (cols X))) selected_columns)\<rparr>"
  from assms(3) have "getitem ?X1 selected_columns = Inr ?S"
    unfolding getitem_def names by auto
  then have sel: "ColumnSelector_transform selected_columns ?X1 = Inr ?S"
    by (simp add: ColumnSelector_transform_def)
  have "filter (\<lambda>c. dtype c \<in> set [Int64]) (cols ?S)
          = filter (\<lambda>c. dtype c = Int64)
              (concat (map (\<lambda>l. filter (\<lambda>c. name c = l) (cols X)) numeric_columns))"
    using filter_int64_selection [of "cols X" selected_columns]
    unfolding numeric_of_selected by simp
  then show ?thesis
    unfolding numeric_features_input_def coerce_and_select_def ctt
    by (simp add: sel numeric_features_selected_def TypeSelector_transform_def select_dtypes_def)
qed

section \<open>The sample frames\<close>

lemma distinct_adult_sample: "distinct (columns adult_sample)"
  by (simp add: columns_def adult_sample_def)

lemma columns_adult_sample:
  "columns adult_sample =
     [''age'', ''workclass'', ''education'', ''education-num'', ''marital-status'', ''occupation'',
      ''relationship'', ''race'', ''sex'', ''capital-gain'', ''capital-loss'', ''hours-per-week'',
      ''native-country'']"
  by (simp add: columns_def adult_sample_def)

lemma coerced_adult_sample: "coerced adult_sample = category_columns"
  unfolding coerced_def columns_adult_sample by (simp add: category_columns_def)

lemma columns_adult_sample_float_age:
  "columns adult_sample_float_age = columns adult_sample"
  by (simp add: columns_def adult_sample_float_age_def adult_sample_def)

lemma category_columns_adult_sample: "set category_columns \<subseteq> set (columns adult_sample)"
  unfolding columns_adult_sample by (simp add: category_columns_def)

lemma selected_columns_adult_sample: "set selected_columns \<subseteq> set (columns adult_sample)"
  unfolding columns_adult_sample by (simp add: selected_columns_def)

section \<open>ColumnSelector: the claims\<close>

text \<open>
  Claim C5. When the frame lacks at least one requested column, \<open>ColumnSelector.transform\<close>
  raises a \<open>KeyError\<close> whose list holds exactly the requested labels that the frame does
  not have: every one of them, each once.
\<close>

theorem ColumnSelector_missing_columns:
  assumes "\<not> set requested \<subseteq> set (columns X)"
  shows "\<exists>missing. ColumnSelector_transform requested X = Inl (KeyError missing)
           \<and> set missing = set requested - set (columns X) \<and> distinct missing"
proof -
  from assms have "getitem X requested = Inl (KeyError (filter (\<lambda>l. l \<notin> set (columns X)) requested))"
    by (auto simp: getitem_def)
  then have "ColumnSelector_transform requested X = Inl (KeyError (cols_error requested X))"
    by (simp add: ColumnSelector_transform_def)
  moreover have "set (cols_error requested X) = set requested - set (columns X)"
    by (auto simp: cols_error_def)
  moreover have "distinct (cols_error requested X)"
    by (simp add: cols_error_def)
  ultimately show ?thesis by blast
qed

theorem ColumnSelector_missing_columns_witness:
  "\<not> set [''income'', ''age'', ''zip'', ''income''] \<subseteq> set (columns categorical_sample)
   \<and> (\<exists>missing. ColumnSelector_transform [''income'', ''age'', ''zip'', ''income''] categorical_sample
          = Inl (KeyError missing)
        \<and> set missing = {''income'', ''age'', ''zip''} \<and> distinct missing)"
proof -
  have h: "\<not> set [''income'', ''age'', ''zip'', ''income''] \<subseteq> set (columns categorical_sample)"
    by (simp add: columns_def categorical_sample_def)
  have d: "set [''income'', ''age'', ''zip'', ''income''] - set (columns categorical_sample)
             = {''income'', ''age'', ''zip''}"
    by (auto simp: columns_def categorical_sample_def)
  show ?thesis
    using h ColumnSelector_missing_columns [OF h] unfolding d by simp
qed



section \<open>TypeSelector: the claims\<close>

text \<open>
  Claim C9, as stated, fails for an empty list of dtypes: no column matches, and
  \<open>select_dtypes\<close> raises instead of returning a frame without columns.
\<close>

theorem TypeSelector_empty_request:
  "TypeSelector_transform [] categorical_sample = Inl ValueError"
  by (simp add: TypeSelector_transform_def select_dtypes_def)

text \<open>
  Claim C9, amended. For a non-empty list of dtypes \<open>TypeSelector.transform\<close> never
  raises: it returns the columns whose dtype is listed, in their original relative
  order, on the same rows; when no column matches, the frame it returns has no
  columns and the row count of the input.
\<close>

theorem TypeSelector_selects:
  assumes "dtypes \<noteq> []"
  shows "\<exists>Y. TypeSelector_transform dtypes X = Inr Y \<and> nrows Y = nrows X
           \<and> cols Y = filter (\<lambda>c. dtype c \<in> set dtypes) (cols X)
           \<and> subseq (cols Y) (cols X)
           \<and> ((\<forall>c \<in> set (cols X). dtype c \<notin> set dtypes) \<longrightarrow> cols Y = [])"
  using assms by (auto simp: TypeSelector_transform_def select_dtypes_def filter_empty_conv)

theorem TypeSelector_selects_witness:
  "[Int64, Float64] \<noteq> []
   \<and> map dtype (cols categorical_sample) = [Category, Category]
   \<and> TypeSelector_transform [Int64, Float64] categorical_sample = Inr \<lparr>nrows = 3, cols = []\<rparr>"
proof -
  have h: "[Int64, Float64] \<noteq> []"
    by simp
  have d: "map dtype (cols categorical_sample) = [Category, Category]"
    by (simp add: categorical_sample_def)
  have z: "\<forall>c \<in> set (cols categorical_sample). dtype c \<notin> set [Int64, Float64]"
    by (simp add: categorical_sample_def)
  have n: "nrows categorical_sample = 3"
    by (simp add: categorical_sample_def)
  from TypeSelector_selects [OF h, of categorical_sample] z n
  have "TypeSelector_transform [Int64, Float64] categorical_sample = Inr \<lparr>nrows = 3, cols = []\<rparr>"
    by auto
  with h d show ?thesis
    by blast
qed

section \<open>MissingCategoricalsTransformer: the claims\<close>

text \<open>
  Claim C7 at a frame without columns: the strategy is only looked at inside the loop
  over the columns, so an unknown strategy raises nothing and the frame is returned.
  (With at least one column the exception is raised: \<open>MissingCategoricals_unknown_strategy\<close>.)
\<close>

theorem MissingCategoricals_unknown_strategy_no_columns:
  "MissingCategoricalsTransformer_transform ''median'' \<lparr>nrows = 3, cols = []\<rparr>
     = (\<lparr>nrows = 3, cols = []\<rparr>, None)"
  by (simp add: MissingCategoricalsTransformer_transform_def columns_def)

text \<open>
  Claim C6 at a column that already has the category \<open>Unknown\<close>: \<open>add_categories\<close>
  raises \<open>ValueError\<close>, and the missing cell is left as it was. (Where no column has
  that category yet, every missing cell is filled and every other cell kept:
  \<open>MissingCategoricals_none_postcondition\<close>.)
\<close>

theorem MissingCategoricals_unknown_already_category:
  "MissingCategoricalsTransformer_transform ''none''
     \<lparr>nrows = 2,
      cols = [\<lparr>name = ''workclass'', dtype = Category,
               cells = [Str ''Unknown'', NaN], categories = [Str ''Unknown'']\<rparr>]\<rparr>
   = (\<lparr>nrows = 2,
       cols = [\<lparr>name = ''workclass'', dtype = Category,
                cells = [Str ''Unknown'', NaN], categories = [Str ''Unknown'']\<rparr>]\<rparr>,
      Some ValueError)"
  by (simp add: MissingCategoricalsTransformer_transform_def columns_def loc_assign_def
      add_unknown_fillna_def)

text \<open>
  Claim C10, as stated, fails for a categorical column that has categories but no
  present value: \<open>value_counts\<close> has an entry for every category, so there is a first
  entry, and every missing cell is filled with it.
\<close>

theorem most_frequent_all_missing_filled:
  "MissingCategoricalsTransformer_transform ''most_frequent''
     \<lparr>nrows = 2,
      cols = [\<lparr>name = ''workclass'', dtype = Category,
               cells = [NaN, NaN], categories = [Str ''Private'']\<rparr>]\<rparr>
   = (\<lparr>nrows = 2,
       cols = [\<lparr>name = ''workclass'', dtype = Category,
                cells = [Str ''Private'', Str ''Private''], categories = [Str ''Private'']\<rparr>]\<rparr>,
      None)"
  by (simp add: MissingCategoricalsTransformer_transform_def columns_def loc_assign_def
      fillna_most_frequent_def value_counts_def fillna_def)

text \<open>
  Claim C10, amended. With the strategy \<open>most_frequent\<close>, on a frame with unique labels:
  when some column has no value counts, \<open>transform\<close> raises \<open>IndexError\<close>; when every
  column has counts (and no categorical column lists a missing value among its
  categories), it succeeds and leaves no missing cell. A categorical column has no
  counts exactly when it has no categories, any other column exactly when all its
  values are missing; a column coerced to categorical with all its values missing has
  none.
\<close>

theorem most_frequent_needs_counts:
  assumes "distinct (columns X)"
  shows "((\<exists>c \<in> set (cols X). value_counts c = []) \<longrightarrow>
            snd (MissingCategoricalsTransformer_transform ''most_frequent'' X) = Some IndexError)
       \<and> ((\<forall>c \<in> set (cols X). value_counts c \<noteq> [] \<and> (dtype c = Category \<longrightarrow> NaN \<notin> set (categories c))) \<longrightarrow>
            (\<exists>Y. MissingCategoricalsTransformer_transform ''most_frequent'' X = (Y, None)
                \<and> columns Y = columns X
                \<and> (\<forall>c \<in> set (cols Y). NaN \<notin> set (cells c))))
       \<and> (\<forall>c. value_counts c = [] \<longleftrightarrow>
              (if dtype c = Category then categories c = [] else (\<forall>v \<in> set (cells c). v = NaN)))
       \<and> (\<forall>c. dtype c \<noteq> Category \<and> (\<forall>v \<in> set (cells c). v = NaN) \<longrightarrow>
              value_counts (astype_category c) = [])"
proof (intro conjI impI allI)
  assume "\<exists>c \<in> set (cols X). value_counts c = []"
  then obtain c where c: "c \<in> set (cols X)" and "value_counts c = []"
    by blast
  then have "fillna_most_frequent c = Inl IndexError"
    by (simp add: fillna_most_frequent_def)
  with assms c show "snd (MissingCategoricalsTransformer_transform ''most_frequent'' X) = Some IndexError"
    unfolding MissingCategoricals_most_frequent_loop
    by (intro for_each_error [of X c]) (auto dest: fillna_most_frequent_error)
next
  assume ok: "\<forall>c \<in> set (cols X). value_counts c \<noteq> [] \<and> (dtype c = Category \<longrightarrow> NaN \<notin> set (categories c))"
  let ?g = "\<lambda>c. c\<lparr>cells := fillna (fst (hd (value_counts c))) (cells c)\<rparr>"
  let ?Y = "X\<lparr>cols := map (\<lambda>c. (?g c)\<lparr>name := name c\<rparr>) (cols X)\<rparr>"
  from ok have "\<forall>c \<in> set (cols X). fillna_most_frequent c = Inr (?g c)"
    by (simp add: fillna_most_frequent_ok)
  with assms have run: "MissingCategoricalsTransformer_transform ''most_frequent'' X = (?Y, None)"
    unfolding MissingCategoricals_most_frequent_loop by (rule for_each_all)
  have "columns ?Y = columns X"
    by (simp add: columns_def)
  moreover have "\<forall>c \<in> set (cols ?Y). NaN \<notin> set (cells c)"
    using ok by (auto simp: fillna_no_NaN most_frequent_not_NaN)
  ultimately show "\<exists>Y. MissingCategoricalsTransformer_transform ''most_frequent'' X = (Y, None)
      \<and> columns Y = columns X \<and> (\<forall>c \<in> set (cols Y). NaN \<notin> set (cells c))"
    using run by blast
next
  fix c :: column
  show "value_counts c = [] \<longleftrightarrow>
          (if dtype c = Category then categories c = [] else (\<forall>v \<in> set (cells c). v = NaN))"
    by (rule value_counts_empty)
next
  fix c :: column
  assume a: "dtype c \<noteq> Category \<and> (\<forall>v \<in> set (cells c). v = NaN)"
  then have "filter (\<lambda>v. v \<noteq> NaN) (cells c) = []"
    by (auto simp: filter_empty_conv)
  with a show "value_counts (astype_category c) = []"
    unfolding value_counts_empty by (simp add: astype_category_def unique_def)
qed

theorem most_frequent_needs_counts_witness:
  "distinct (columns all_missing_sample)
   \<and> map value_counts (cols all_missing_sample) = [[(Str ''Private'', 1)], []]
   \<and> snd (MissingCategoricalsTransformer_transform ''most_frequent'' all_missing_sample)
        = Some IndexError
   \<and> distinct (columns categorical_sample)
   \<and> (\<exists>Y. MissingCategoricalsTransformer_transform ''most_frequent'' categorical_sample = (Y, None)
          \<and> columns Y = [''workclass'', ''sex''])"
proof -
  have d1: "distinct (columns all_missing_sample)"
    by (simp add: columns_def all_missing_sample_def)
  have v1: "map value_counts (cols all_missing_sample) = [[(Str ''Private'', 1)], []]"
    by (simp add: all_missing_sample_def value_counts_def)
  then have e1: "\<exists>c \<in> set (cols all_missing_sample). value_counts c = []"
    by (simp add: all_missing_sample_def)
  have d2: "distinct (columns categorical_sample)"
    by (simp add: columns_def categorical_sample_def)
  have v2: "\<forall>c \<in> set (cols categorical_sample).
              value_counts c \<noteq> [] \<and> (dtype c = Category \<longrightarrow> NaN \<notin> set (categories c))"
    by (simp add: categorical_sample_def value_counts_empty)
  have n2: "columns categorical_sample = [''workclass'', ''sex'']"
    by (simp add: columns_def categorical_sample_def)
  from most_frequent_needs_counts [OF d1] e1
  have "snd (MissingCategoricalsTransformer_transform ''most_frequent'' all_missing_sample)
          = Some IndexError"
    by blast
  moreover from most_frequent_needs_counts [OF d2] v2
  have "\<exists>Y. MissingCategoricalsTransformer_transform ''most_frequent'' categorical_sample = (Y, None)
          \<and> columns Y = [''workclass'', ''sex'']"
    unfolding n2 by blast
  ultimately show ?thesis
    using d1 v1 d2 by blast
qed

section \<open>PipelineAwareLabelEncoder: the claims\<close>



section \<open>The pipeline: the claims\<close>

text \<open>
  Claim C2, as stated, fails for a numeric column stored as float: the branch selects
  by the dtype \<open>int64\<close> only, so an \<open>age\<close> column with a missing value (float64) is not
  passed to the scaler.
\<close>

theorem numeric_branch_drops_float_age:
  "map name (cols adult_sample_float_age) =
     [''age'', ''workclass'', ''education'', ''education-num'', ''marital-status'', ''occupation'',
      ''relationship'', ''race'', ''sex'', ''capital-gain'', ''capital-loss'', ''hours-per-week'',
      ''native-country'']
   \<and> map dtype (cols adult_sample_float_age) =
     [Float64, Object, Object, Int64, Object, Object, Object, Object, Object, Int64, Int64, Int64, Object]
   \<and> map_sum id columns (numeric_features_input adult_sample_float_age) =
     Inr [''education-num'', ''capital-gain'', ''capital-loss'', ''hours-per-week'']"
proof (intro conjI)
  show "map name (cols adult_sample_float_age) =
     [''age'', ''workclass'', ''education'', ''education-num'', ''marital-status'', ''occupation'',
      ''relationship'', ''race'', ''sex'', ''capital-gain'', ''capital-loss'', ''hours-per-week'',
      ''native-country'']"
    by (simp add: adult_sample_float_age_def adult_sample_def)
  show "map dtype (cols adult_sample_float_age) =
     [Float64, Object, Object, Int64, Object, Object, Object, Object, Object, Int64, Int64, Int64, Object]"
    by (simp add: adult_sample_float_age_def adult_sample_def)
  have "numeric_features_input adult_sample_float_age =
           Inr \<lparr>nrows = nrows adult_sample_float_age,
                cols = filter (\<lambda>c. dtype c = Int64)
                         (concat (map (\<lambda>l. filter (\<lambda>c. name c = l) (cols adult_sample_float_age))
                            numeric_columns))\<rparr>"
    by (rule numeric_features_input_result)
      (simp_all add: columns_adult_sample_float_age distinct_adult_sample
        category_columns_adult_sample selected_columns_adult_sample)
  then show "map_sum id columns (numeric_features_input adult_sample_float_age) =
     Inr [''education-num'', ''capital-gain'', ''capital-loss'', ''hours-per-week'']"
    by (simp add: columns_def numeric_columns_def adult_sample_float_age_def adult_sample_def)
qed

text \<open>
  Claim C2, amended. On a frame with unique labels that has the columns the pipeline
  names, the numeric branch hands to the scaler exactly those of the five numeric
  columns (age, education-num, capital-gain, capital-loss, hours-per-week) whose
  dtype is int64, unchanged and in that order; all five when all are int64.
\<close>

theorem numeric_branch_selects_int64:
  assumes "distinct (columns X)"
    and "set category_columns \<subseteq> set (columns X)"
    and "set selected_columns \<subseteq> set (columns X)"
  shows "\<exists>N T. ColumnSelector_transform numeric_columns X = Inr N
           \<and> columns N = numeric_columns
           \<and> numeric_features_input X = Inr T
           \<and> nrows T = nrows X
           \<and> cols T = filter (\<lambda>c. dtype c = Int64) (cols N)
           \<and> ((\<forall>c \<in> set (cols N). dtype c = Int64) \<longrightarrow> columns T = numeric_columns)"
proof -
  let ?N = "\<lparr>nrows = nrows X,
             cols = concat (map (\<lambda>l. filter (\<lambda>c. name c = l) (cols X)) numeric_columns)\<rparr>"
  let ?T = "\<lparr>nrows = nrows X, cols = filter (\<lambda>c. dtype c = Int64) (cols ?N)\<rparr>"
  have sub: "set numeric_columns \<subseteq> set selected_columns"
    by (simp add: numeric_columns_def selected_columns_def)
  with assms(3) have num: "set numeric_columns \<subseteq> set (columns X)"
    by blast
  then have "getitem X numeric_columns = Inr ?N"
    unfolding getitem_def by auto
  then have N: "ColumnSelector_transform numeric_columns X = Inr ?N"
    by (simp add: ColumnSelector_transform_def)
  have names: "columns ?N = numeric_columns"
    using names_of_selection [OF num assms(1)] by (simp add: columns_def)
  have T: "numeric_features_input X = Inr ?T"
    using numeric_features_input_result [OF assms] by simp
  have "columns ?T = numeric_columns" if "\<forall>c \<in> set (cols ?N). dtype c = Int64"
  proof -
    from that have "filter (\<lambda>c. dtype c = Int64) (cols ?N) = cols ?N"
      by (intro filter_True) simp
    with names show ?thesis
      by (simp add: columns_def)
  qed
  with N names T show ?thesis
    by (intro exI [of _ ?N] exI [of _ ?T]) simp
qed

theorem numeric_branch_selects_int64_witness:
  "distinct (columns adult_sample)
   \<and> set category_columns \<subseteq> set (columns adult_sample)
   \<and> set selected_columns \<subseteq> set (columns adult_sample)
   \<and> (\<exists>T. numeric_features_input adult_sample = Inr T \<and> columns T = numeric_columns)"
proof -
  have "\<forall>c \<in> set (cols N). dtype c = Int64"
    if "ColumnSelector_transform numeric_columns adult_sample = Inr N" for N
  proof -
    from that have "map dtype (cols N) = [Int64, Int64, Int64, Int64, Int64]"
      by (auto simp: ColumnSelector_transform_def getitem_def numeric_columns_def
          columns_def adult_sample_def)
    then have "set (map dtype (cols N)) = {Int64}"
      by simp
    then show ?thesis
      by auto
  qed
  with numeric_branch_selects_int64
         [OF distinct_adult_sample category_columns_adult_sample selected_columns_adult_sample]
  have "\<exists>T. numeric_features_input adult_sample = Inr T \<and> columns T = numeric_columns"
    by blast
  then show ?thesis
    using distinct_adult_sample category_columns_adult_sample selected_columns_adult_sample
    by blast
qed

text \<open>
  Claim C3, as stated, fails: \<open>CustomTypeTransformer.transform\<close> assigns into the frame
  it is given, and after the call the caller's text columns are categorical.
\<close>

theorem CustomTypeTransformer_changes_dtypes:
  "map dtype (cols adult_sample) =
     [Int64, Object, Object, Int64, Object, Object, Object, Object, Object, Int64, Int64, Int64, Object]
   \<and> map dtype (cols (fst (CustomTypeTransformer_transform adult_sample))) =
     [Int64, Category, Category, Int64, Category, Category, Category, Category, Category,
      Int64, Int64, Int64, Category]"
proof
  show "map dtype (cols adult_sample) =
     [Int64, Object, Object, Int64, Object, Object, Object, Object, Object, Int64, Int64, Int64, Object]"
    by (simp add: adult_sample_def)
  show "map dtype (cols (fst (CustomTypeTransformer_transform adult_sample))) =
     [Int64, Category, Category, Int64, Category, Category, Category, Category, Category,
      Int64, Int64, Int64, Category]"
    unfolding CustomTypeTransformer_result [OF distinct_adult_sample] coerced_adult_sample
    by (simp add: adult_sample_def category_columns_def astype_category_dtype)
qed

text \<open>
  Claim C3, amended. The three transformers that assign into the frame they are given
  (\<open>CustomTypeTransformer\<close>, \<open>MissingCategoricalsTransformer\<close>,
  \<open>PipelineAwareLabelEncoder\<close>) leave the caller's frame with the same row count and
  the same column labels. \<open>CustomTypeTransformer\<close> also keeps every cell value and
  every column outside its eight (on a frame with unique labels). A call of the whole
  pipeline's \<open>transform\<close> changes the caller's frame exactly as \<open>CustomTypeTransformer\<close>
  does, since the later assignments go to frames that the selectors build.
\<close>

theorem in_place_transforms:
  "fst (preprocess_transform scaler onehot X) = fst (CustomTypeTransformer_transform X)
   \<and> nrows (fst (CustomTypeTransformer_transform X)) = nrows X
   \<and> columns (fst (CustomTypeTransformer_transform X)) = columns X
   \<and> nrows (fst (MissingCategoricalsTransformer_transform strategy X)) = nrows X
   \<and> columns (fst (MissingCategoricalsTransformer_transform strategy X)) = columns X
   \<and> nrows (fst (PipelineAwareLabelEncoder_transform X)) = nrows X
   \<and> columns (fst (PipelineAwareLabelEncoder_transform X)) = columns X
   \<and> (distinct (columns X) \<longrightarrow>
        map cells (cols (fst (CustomTypeTransformer_transform X))) = map cells (cols X)
      \<and> filter (\<lambda>c. name c \<notin> set category_columns) (cols (fst (CustomTypeTransformer_transform X)))
          = filter (\<lambda>c. name c \<notin> set category_columns) (cols X))"
proof (intro conjI impI)
  show "fst (preprocess_transform scaler onehot X) = fst (CustomTypeTransformer_transform X)"
    by (simp add: fst_preprocess_transform fst_coerce_and_select)
next
  assume d: "distinct (columns X)"
  show "map cells (cols (fst (CustomTypeTransformer_transform X))) = map cells (cols X)"
    unfolding CustomTypeTransformer_result [OF d]
    by (simp add: astype_category_cells comp_def if_distrib [of cells] cong: if_cong)
  have "set (coerced X) \<subseteq> set category_columns"
    unfolding coerced_def by (auto dest: set_takeWhileD)
  then have "filter (\<lambda>c. name c \<notin> set category_columns)
               (map (\<lambda>c. if name c \<in> set (coerced X) then astype_category c else c) cs)
             = filter (\<lambda>c. name c \<notin> set category_columns) cs" for cs
    by (induction cs) (auto simp: astype_category_name)
  then show "filter (\<lambda>c. name c \<notin> set category_columns) (cols (fst (CustomTypeTransformer_transform X)))
          = filter (\<lambda>c. name c \<notin> set category_columns) (cols X)"
    unfolding CustomTypeTransformer_result [OF d] by simp
qed (simp_all add: CustomTypeTransformer_frame MissingCategoricals_frame PipelineAwareLabelEncoder_frame)

theorem in_place_transforms_witness:
  "distinct (columns adult_sample)
   \<and> map cells (cols (fst (CustomTypeTransformer_transform adult_sample)))
        = map cells (cols adult_sample)
   \<and> fst (preprocess_transform sample_fitted sample_fitted adult_sample)
        = fst (CustomTypeTransformer_transform adult_sample)"
  using distinct_adult_sample
    in_place_transforms [of sample_fitted sample_fitted adult_sample "''none''"]
  by blast

text \<open>
  Claim C4. For any fitted scaler and one-hot encoder, and a frame with unique labels:
  a second \<open>transform\<close> of the frame, as the first call left it, returns what the
  first call returned (the same matrix or the same exception) and leaves the frame as
  it was after the first call.
\<close>

theorem transform_twice:
  assumes "distinct (columns X)"
  shows "preprocess_transform scaler onehot (fst (preprocess_transform scaler onehot X))
           = preprocess_transform scaler onehot X"
  unfolding fst_preprocess_transform
  unfolding preprocess_transform_def coerce_and_select_idem [OF assms] ..

theorem transform_twice_witness:
  "distinct (columns adult_sample)
   \<and> preprocess_transform sample_fitted sample_fitted
        (fst (preprocess_transform sample_fitted sample_fitted adult_sample))
        = preprocess_transform sample_fitted sample_fitted adult_sample"
  using distinct_adult_sample transform_twice [OF distinct_adult_sample]
  by blast

end
